theory Spec2Isabelle
  imports Main "HOL-Library.Sublist"
begin

text \<open>
  The conversion of Pocket CSV exports into one bookmark file, as \<open>main.py\<close> does it:
  the function \<open>_convert_data_to_html_bookmarks\<close> with the parts of Python's library
  it runs on (text methods, the csv reader, the Jinja2 template with its escaping), and
  the properties of its counts, its error handling and its output.
\<close>

section \<open>Python text\<close>

text \<open>
  A Python \<open>str\<close> is a sequence of Unicode code points. The input files are decoded
  from UTF-8, and the byte-order mark the source strips is the single code point U+FEFF,
  so text is modelled as a list of code points rather than as a list of bytes.
\<close>

type_synonym pystr = "nat list"

definition str :: "string \<Rightarrow> pystr" where
  "str s = map of_char s"

text \<open>\<open>str.isspace\<close> of one code point: the code points \<open>str.strip()\<close> removes.\<close>

definition isspace :: "nat \<Rightarrow> bool" where
  "isspace c \<longleftrightarrow>
     (0x09 \<le> c \<and> c \<le> 0x0D) \<or> (0x1C \<le> c \<and> c \<le> 0x20) \<or> c = 0x85 \<or> c = 0xA0 \<or>
     c = 0x1680 \<or> (0x2000 \<le> c \<and> c \<le> 0x200A) \<or> c = 0x2028 \<or> c = 0x2029 \<or>
     c = 0x202F \<or> c = 0x205F \<or> c = 0x3000"

definition strip :: "pystr \<Rightarrow> pystr" where
  "strip s = rev (dropWhile isspace (rev (dropWhile isspace s)))"

text \<open>
  \<open>str.lower()\<close>. The ASCII letters are lowered as Python does. Of the code points
  outside ASCII, Unicode lowers exactly two to text that contains an ASCII letter
  (U+0130 to \<open>i\<close> followed by U+0307, and U+212A to \<open>k\<close>); both are written out. The rest
  of the Unicode table maps code points outside ASCII to code points outside ASCII and is
  not reproduced: the source only compares the lowered text with an ASCII literal, and
  that comparison cannot tell the table from the identity on those code points.
\<close>

definition lower_cp :: "nat \<Rightarrow> pystr" where
  "lower_cp c =
     (if 0x41 \<le> c \<and> c \<le> 0x5A then [c + 0x20]
      else if c = 0x130 then [0x69, 0x307]
      else if c = 0x212A then [0x6B]
      else [c])"

definition lower :: "pystr \<Rightarrow> pystr" where
  "lower s = concat (map lower_cp s)"

text \<open>
  \<open>str.splitlines()\<close> (without the line ends): a line ends at \<open>\n\<close>, \<open>\r\<close>, \<open>\r\n\<close>,
  \<open>\v\<close>, \<open>\f\<close>, U+001C, U+001D, U+001E, U+0085, U+2028 or U+2029, and a
  line break at the very end opens no further, empty line.
\<close>

definition is_linebreak :: "nat \<Rightarrow> bool" where
  "is_linebreak c \<longleftrightarrow>
     c = 0x0A \<or> c = 0x0B \<or> c = 0x0C \<or> c = 0x0D \<or> c = 0x1C \<or> c = 0x1D \<or> c = 0x1E \<or>
     c = 0x85 \<or> c = 0x2028 \<or> c = 0x2029"

fun splitlines_from :: "pystr \<Rightarrow> pystr \<Rightarrow> pystr list" where
  "splitlines_from cur [] = (if cur = [] then [] else [cur])"
| "splitlines_from cur [c] =
     (if is_linebreak c then [cur] else [cur @ [c]])"
| "splitlines_from cur (c # d # cs) =
     (if c = 0x0D \<and> d = 0x0A then cur # splitlines_from [] cs
      else if is_linebreak c then cur # splitlines_from [] (d # cs)
      else splitlines_from (cur @ [c]) (d # cs))"

definition splitlines :: "pystr \<Rightarrow> pystr list" where
  "splitlines s = splitlines_from [] s"

section \<open>The csv module: \<open>csv.reader\<close> and \<open>csv.DictReader\<close>\<close>

text \<open>
  The source builds \<open>csv.DictReader(content.splitlines())\<close> with every default: the
  \<open>excel\<close> dialect (delimiter \<open>,\<close>, quote character \<open>"\<close>, \<open>doublequote\<close> on, no escape
  character, \<open>skipinitialspace\<close> off, \<open>strict\<close> off, \<open>QUOTE_MINIMAL\<close>) and the field size
  limit 131072. The reader below is CPython's character automaton for that dialect; the
  two states that only an escape character reaches are left out.
\<close>

datatype py_exception =
  FileNotFoundError | OSError | UnicodeDecodeError | AttributeError | csv_Error

datatype ParserState =
  START_RECORD | START_FIELD | IN_FIELD | IN_QUOTED_FIELD | QUOTE_IN_QUOTED_FIELD | EAT_CRNL

record ReaderObj =
  pstate :: ParserState
  pfields :: "pystr list"
  pfield :: pystr

definition field_limit :: nat where
  "field_limit = 131072"

definition delimiter :: nat where
  "delimiter = 0x2C"

definition quotechar :: nat where
  "quotechar = 0x22"

definition parse_reset :: ReaderObj where
  "parse_reset = \<lparr>pstate = START_RECORD, pfields = [], pfield = []\<rparr>"

definition parse_save_field :: "ReaderObj \<Rightarrow> ReaderObj" where
  "parse_save_field r = r\<lparr>pfields := pfields r @ [pfield r], pfield := []\<rparr>"

definition parse_add_char :: "ReaderObj \<Rightarrow> nat \<Rightarrow> py_exception + ReaderObj" where
  "parse_add_char r c =
     (if length (pfield r) \<ge> field_limit then Inl csv_Error
      else Inr (r\<lparr>pfield := pfield r @ [c]\<rparr>))"

text \<open>The character \<open>None\<close> is the end-of-line mark the reader feeds after each line.\<close>

definition is_nl :: "nat option \<Rightarrow> bool" where
  "is_nl c \<longleftrightarrow> c = Some 0x0A \<or> c = Some 0x0D"

definition end_of_record :: "ReaderObj \<Rightarrow> nat option \<Rightarrow> ReaderObj" where
  "end_of_record r c =
     (parse_save_field r)\<lparr>pstate := (if c = None then START_RECORD else EAT_CRNL)\<rparr>"

definition start_field :: "ReaderObj \<Rightarrow> nat option \<Rightarrow> py_exception + ReaderObj" where
  "start_field r c =
     (case c of
        None \<Rightarrow> Inr (end_of_record r c)
      | Some ch \<Rightarrow>
          if is_nl c then Inr (end_of_record r c)
          else if ch = quotechar then Inr (r\<lparr>pstate := IN_QUOTED_FIELD\<rparr>)
          else if ch = delimiter then Inr (parse_save_field r)
          else (case parse_add_char r ch of
                  Inl e \<Rightarrow> Inl e
                | Inr r' \<Rightarrow> Inr (r'\<lparr>pstate := IN_FIELD\<rparr>)))"

definition parse_process_char :: "ReaderObj \<Rightarrow> nat option \<Rightarrow> py_exception + ReaderObj" where
  "parse_process_char r c =
     (case pstate r of
        START_RECORD \<Rightarrow>
          (if c = None then Inr r
           else if is_nl c then Inr (r\<lparr>pstate := EAT_CRNL\<rparr>)
           else start_field (r\<lparr>pstate := START_FIELD\<rparr>) c)
      | START_FIELD \<Rightarrow> start_field r c
      | IN_FIELD \<Rightarrow>
          (case c of
             None \<Rightarrow> Inr (end_of_record r c)
           | Some ch \<Rightarrow>
               if is_nl c then Inr (end_of_record r c)
               else if ch = delimiter then Inr ((parse_save_field r)\<lparr>pstate := START_FIELD\<rparr>)
               else parse_add_char r ch)
      | IN_QUOTED_FIELD \<Rightarrow>
          (case c of
             None \<Rightarrow> Inr r
           | Some ch \<Rightarrow>
               if ch = quotechar then Inr (r\<lparr>pstate := QUOTE_IN_QUOTED_FIELD\<rparr>)
               else parse_add_char r ch)
      | QUOTE_IN_QUOTED_FIELD \<Rightarrow>
          (case c of
             None \<Rightarrow> Inr (end_of_record r c)
           | Some ch \<Rightarrow>
               if ch = quotechar then
                 (case parse_add_char r ch of
                    Inl e \<Rightarrow> Inl e
                  | Inr r' \<Rightarrow> Inr (r'\<lparr>pstate := IN_QUOTED_FIELD\<rparr>))
               else if ch = delimiter then Inr ((parse_save_field r)\<lparr>pstate := START_FIELD\<rparr>)
               else if is_nl c then Inr (end_of_record r c)
               else (case parse_add_char r ch of
                       Inl e \<Rightarrow> Inl e
                     | Inr r' \<Rightarrow> Inr (r'\<lparr>pstate := IN_FIELD\<rparr>)))
      | EAT_CRNL \<Rightarrow>
          (if is_nl c then Inr r
           else if c = None then Inr (r\<lparr>pstate := START_RECORD\<rparr>)
           else Inl csv_Error))"

text \<open>The characters of one line, in order; the first error ends the line.\<close>

fun process_line :: "ReaderObj \<Rightarrow> pystr \<Rightarrow> py_exception + ReaderObj" where
  "process_line r [] = Inr r"
| "process_line r (c # cs) =
     (case parse_process_char r (Some c) of
        Inl e \<Rightarrow> Inl e
      | Inr r' \<Rightarrow> process_line r' cs)"

text \<open>
  One call of the reader's \<open>__next__\<close> on the lines not yet consumed. \<open>None\<close> is
  \<open>StopIteration\<close>; otherwise the call raises, or returns the record's fields and
  leaves the lines after it. A record runs over several lines while a quoted field is
  open, and the end of the input closes an open field.
\<close>

fun iternext_loop ::
  "ReaderObj \<Rightarrow> pystr list \<Rightarrow> (py_exception + pystr list \<times> pystr list) option" where
  "iternext_loop r [] =
     (if pfield r \<noteq> [] \<or> pstate r = IN_QUOTED_FIELD
      then Some (Inr (pfields (parse_save_field r), []))
      else None)"
| "iternext_loop r (l # ls) =
     (case process_line r l of
        Inl e \<Rightarrow> Some (Inl e)
      | Inr r1 \<Rightarrow>
          (case parse_process_char r1 None of
             Inl e \<Rightarrow> Some (Inl e)
           | Inr r2 \<Rightarrow>
               if pstate r2 \<noteq> START_RECORD then iternext_loop r2 ls
               else Some (Inr (pfields r2, ls))))"

definition Reader_iternext ::
  "pystr list \<Rightarrow> (py_exception + pystr list \<times> pystr list) option" where
  "Reader_iternext ls = iternext_loop parse_reset ls"

lemma iternext_loop_le:
  "iternext_loop r ls = Some (Inr (fs, rest)) \<Longrightarrow> length rest \<le> length ls"
proof (induction ls arbitrary: r)
  case Nil
  then show ?case by (simp split: if_splits)
next
  case (Cons l ls)
  from Cons.prems show ?case
    by (auto split: sum.splits if_splits dest!: Cons.IH)
qed

lemma iternext_loop_shorter:
  "iternext_loop r (l # ls) = Some (Inr (fs, rest)) \<Longrightarrow> length rest < Suc (length ls)"
  by (auto split: sum.splits if_splits dest!: iternext_loop_le)

text \<open>
  Every record the reader yields, in order, and the error that ends the iteration, if any.
  The rows before an error have already been handed to the caller when it is raised.
\<close>

function reader_list :: "pystr list \<Rightarrow> pystr list list \<times> py_exception option" where
  "reader_list ls =
     (case Reader_iternext ls of
        None \<Rightarrow> ([], None)
      | Some (Inl e) \<Rightarrow> ([], Some e)
      | Some (Inr (fs, rest)) \<Rightarrow>
          (case reader_list rest of (rs, e) \<Rightarrow> (fs # rs, e)))"
  by pat_completeness auto
termination
proof (relation "measure length")
  show "wf (measure length)" by simp
next
  fix ls :: "pystr list" and x2 b x y
  assume a: "Reader_iternext ls = Some x2" "x2 = Inr b" "(x, y) = b"
  then have "ls \<noteq> []"
    by (cases ls) (auto simp: Reader_iternext_def parse_reset_def split: if_splits)
  then obtain l ls' where "ls = l # ls'" by (cases ls) auto
  with a have "length y < length ls"
    using iternext_loop_shorter [of parse_reset l ls' x y]
    by (simp add: Reader_iternext_def)
  then show "(y, ls) \<in> measure length" by simp
qed

declare reader_list.simps [simp del]

text \<open>
  A row of \<open>csv.DictReader\<close>: a dictionary from the header's names to the record's
  fields. Where the header repeats a name the later field wins; a record shorter than the
  header has every missing name bound to \<open>None\<close> (\<open>restval\<close>). The surplus fields of a
  record longer than the header go under the key \<open>None\<close> (\<open>restkey\<close>), which is not a
  \<open>str\<close> and which the source never looks up: that binding is not modelled.
\<close>

datatype pyval = PStr pystr | PNone

type_synonym row = "pystr \<rightharpoonup> pyval"

definition dict_zip :: "pystr list \<Rightarrow> pystr list \<Rightarrow> row" where
  "dict_zip ks vs = fold (\<lambda>(k, v) d. d(k \<mapsto> PStr v)) (zip ks vs) Map.empty"

definition DictReader_row :: "pystr list \<Rightarrow> pystr list \<Rightarrow> row" where
  "DictReader_row fieldnames r =
     fold (\<lambda>k d. d(k \<mapsto> PNone)) (drop (length r) fieldnames) (dict_zip fieldnames r)"

text \<open>
  The rows a \<open>for row in csvreader\<close> loop sees: the first record is the header (also when
  it is empty), every later empty record is skipped, and an error of the underlying reader
  ends the loop after the rows before it. No record at all is an empty loop.
\<close>

definition DictReader_fieldnames :: "pystr list \<Rightarrow> pystr list option" where
  "DictReader_fieldnames ls = (case fst (reader_list ls) of [] \<Rightarrow> None | h # _ \<Rightarrow> Some h)"

definition DictReader :: "pystr list \<Rightarrow> row list \<times> py_exception option" where
  "DictReader ls =
     (case reader_list ls of
        ([], e) \<Rightarrow> ([], e)
      | (fieldnames # rs, e) \<Rightarrow>
          (map (DictReader_row fieldnames) (filter (\<lambda>r. r \<noteq> []) rs), e))"

definition dict_get :: "row \<Rightarrow> pystr \<Rightarrow> pyval \<Rightarrow> pyval" where
  "dict_get d k dflt = (case d k of None \<Rightarrow> dflt | Some v \<Rightarrow> v)"

section \<open>The conversion\<close>

text \<open>
  The world the conversion runs in. Opening and reading an input path gives the decoded
  text, or the exception \<open>open\<close> or \<open>read\<close> raises. The statement
  \<open>with open(path, 'w', encoding='utf-8') as htmlfile: htmlfile.write(text)\<close> on an output
  path goes one of three ways: it completes; \<open>open\<close> raises (permissions, a missing
  directory) and the destination is not touched; or \<open>open\<close> succeeds, which empties the
  destination, and then \<open>write\<close> or the closing of the file raises (a full disk), which
  leaves the destination with at most a part of the text.
\<close>

type_synonym path = pystr

datatype write_result = Write_ok | Open_raises py_exception | Write_raises py_exception

datatype destination = Untouched | Truncated | Complete pystr

record env =
  read_file :: "path \<Rightarrow> py_exception + pystr"
  write_file :: "path \<Rightarrow> pystr \<Rightarrow> write_result"

text \<open>The dictionary appended to \<open>bookmarks_data\<close> for a row that is kept.\<close>

record bookmark_item =
  url :: pyval
  title :: pyval
  add_date :: pyval
  tags :: pyval
  toread :: bool

text \<open>The lines the conversion prints, in order.\<close>

datatype message =
  Processing_file path
| File_not_found path
| Error_processing_file path py_exception
| Error_writing path py_exception

record conv_state =
  processed_count :: int
  skipped_archived_count :: int
  bookmarks_data :: "bookmark_item list"
  echo :: "message list"

definition init_state :: conv_state where
  "init_state =
     \<lparr>processed_count = 0, skipped_archived_count = 0, bookmarks_data = [], echo = []\<rparr>"

text \<open>
  \<open>row.get('status', '').strip().lower()\<close>: the default applies when the dictionary has
  no such key; a key bound to \<open>None\<close> gives \<open>None\<close>, and \<open>None.strip()\<close> raises
  \<open>AttributeError\<close>.
\<close>

definition row_status :: "row \<Rightarrow> py_exception + pystr" where
  "row_status row =
     (case dict_get row (str ''status'') (PStr []) of
        PNone \<Rightarrow> Inl AttributeError
      | PStr s \<Rightarrow> Inr (lower (strip s)))"

definition make_item :: "row \<Rightarrow> bookmark_item" where
  "make_item row =
     \<lparr>url = dict_get row (str ''url'') (PStr []),
      title = dict_get row (str ''title'') (PStr []),
      add_date = dict_get row (str ''time_added'') (PStr []),
      tags = dict_get row (str ''tags'') (PStr []),
      toread = True\<rparr>"

text \<open>
  The body of \<open>for row in csvreader\<close>. The counters and the list are updated row by row,
  so what the rows before an exception did stays done; the second argument is the error
  the reader itself raises once its rows are used up, if any.
\<close>

fun for_rows ::
  "row list \<Rightarrow> py_exception option \<Rightarrow> conv_state \<Rightarrow> conv_state \<times> py_exception option" where
  "for_rows [] e st = (st, e)"
| "for_rows (row # rows) e st =
     (case row_status row of
        Inl x \<Rightarrow> (st, Some x)
      | Inr status \<Rightarrow>
          if status = str ''archive''
          then for_rows rows e (st\<lparr>skipped_archived_count := skipped_archived_count st + 1\<rparr>)
          else for_rows rows e
                 (st\<lparr>bookmarks_data := bookmarks_data st @ [make_item row],
                     processed_count := processed_count st + 1\<rparr>))"

text \<open>The \<open>try\<close> block of one input file: read, drop a leading U+FEFF, parse, loop.\<close>

definition strip_bom :: "pystr \<Rightarrow> pystr" where
  "strip_bom content = (if prefix [0xFEFF] content then drop 1 content else content)"

definition try_file :: "env \<Rightarrow> path \<Rightarrow> conv_state \<Rightarrow> conv_state \<times> py_exception option" where
  "try_file w p st =
     (case read_file w p of
        Inl x \<Rightarrow> (st, Some x)
      | Inr content \<Rightarrow>
          (case DictReader (splitlines (strip_bom content)) of
             (rows, e) \<Rightarrow> for_rows rows e st))"

text \<open>One turn of \<open>for csv_filepath in csv_filepaths\<close>, with its two \<open>except\<close> clauses.\<close>

definition process_file :: "env \<Rightarrow> path \<Rightarrow> conv_state \<Rightarrow> conv_state" where
  "process_file w p st =
     (case try_file w p (st\<lparr>echo := echo st @ [Processing_file p]\<rparr>) of
        (st', None) \<Rightarrow> st'
      | (st', Some x) \<Rightarrow>
          if x = FileNotFoundError then st'\<lparr>echo := echo st' @ [File_not_found p]\<rparr>
          else st'\<lparr>echo := echo st' @ [Error_processing_file p x]\<rparr>)"

fun for_files :: "env \<Rightarrow> path list \<Rightarrow> conv_state \<Rightarrow> conv_state" where
  "for_files w [] st = st"
| "for_files w (p # ps) st = for_files w ps (process_file w p st)"

section \<open>The template\<close>

text \<open>
  \<open>markupsafe.escape\<close>, which the filter \<open>e\<close> and the autoescaping of the environment
  apply: \<open>str()\<close> of the value, then the five replacements. \<open>str(None)\<close> is \<open>None\<close>.
\<close>

definition py_str :: "pyval \<Rightarrow> pystr" where
  "py_str v = (case v of PStr s \<Rightarrow> s | PNone \<Rightarrow> str ''None'')"

definition escape_cp :: "nat \<Rightarrow> pystr" where
  "escape_cp c =
     (if c = 0x26 then str ''&amp;''
      else if c = 0x3E then str ''&gt;''
      else if c = 0x3C then str ''&lt;''
      else if c = 0x27 then str ''&#39;''
      else if c = 0x22 then str ''&#34;''
      else [c])"

definition escape_str :: "pystr \<Rightarrow> pystr" where
  "escape_str s = concat (map escape_cp s)"

definition escape :: "pyval \<Rightarrow> pystr" where
  "escape v = escape_str (py_str v)"

text \<open>
  \<open>BOOKMARK_TEMPLATE_CONTENT\<close> as Jinja2 renders it with its default whitespace
  control: the text before the loop, the body of the loop once per bookmark (from the
  line break after the \<open>for\<close> tag to the one before \<open>endfor\<close>), and the text after the
  loop without the template's last line break. Every expression is escaped once: the
  ones with the filter \<open>e\<close> by the filter, \<open>add_date\<close> by the autoescaping that
  \<open>select_autoescape\<close> turns on for a template made from a string.
\<close>

definition template_head :: pystr where
  "template_head =
     str ''<!DOCTYPE NETSCAPE-Bookmark-file-1>'' @ [0x0A] @
     str ''<!-- This is an automatically generated file. -->'' @ [0x0A] @
     str ''<META HTTP-EQUIV=\"Content-Type\" CONTENT=\"text/html; charset=UTF-8\">'' @ [0x0A] @
     str ''<TITLE>Bookmarks</TITLE>'' @ [0x0A] @
     str ''<H1>Pocket Non-Archived Bookmarks</H1>'' @ [0x0A] @
     str ''<DL><p>'' @ [0x0A]"

definition template_tail :: pystr where
  "template_tail = [0x0A] @ str ''</DL><p>''"

definition toread_attr :: pystr where
  "toread_attr = str '' TOREAD=\"yes\"''"

definition render_bookmark :: "bookmark_item \<Rightarrow> pystr" where
  "render_bookmark b =
     [0x0A] @ str ''    <DT><A HREF=\"'' @ escape (url b) @
     str ''\" ADD_DATE=\"'' @ escape (add_date b) @
     str ''\" TAGS=\"'' @ escape (tags b) @ str ''\"'' @
     (if toread b then toread_attr else []) @
     str ''>'' @ escape (title b) @ str ''</A>'' @ [0x0A]"

definition render :: "bookmark_item list \<Rightarrow> pystr" where
  "render bookmarks = template_head @ concat (map render_bookmark bookmarks) @ template_tail"

text \<open>
  The whole of \<open>_convert_data_to_html_bookmarks\<close>: the pair it returns, the lines it
  prints, and what has become of the output path: left as it was, emptied and left with
  at most a part of the text, or holding the whole text.
\<close>

record outcome =
  returned :: "int \<times> int"
  console :: "message list"
  written :: destination

definition convert_data_to_html_bookmarks :: "env \<Rightarrow> path list \<Rightarrow> path \<Rightarrow> outcome" where
  "convert_data_to_html_bookmarks w csv_filepaths output_html_filepath =
     (let st = for_files w csv_filepaths init_state;
          html_output = render (bookmarks_data st)
      in case write_file w output_html_filepath html_output of
           Open_raises x \<Rightarrow>
             \<lparr>returned = (0, skipped_archived_count st),
              console = echo st @ [Error_writing output_html_filepath x],
              written = Untouched\<rparr>
         | Write_raises x \<Rightarrow>
             \<lparr>returned = (0, skipped_archived_count st),
              console = echo st @ [Error_writing output_html_filepath x],
              written = Truncated\<rparr>
         | Write_ok \<Rightarrow>
             \<lparr>returned = (processed_count st, skipped_archived_count st),
              console = echo st,
              written = Complete html_output\<rparr>)"

section \<open>Notions the properties are stated with\<close>

text \<open>
  A row has a status when \<open>row.get('status', '')\<close> is text, so that the loop body
  gets past its first line; it is archived when that text, trimmed and lowered, is
  \<open>archive\<close>.
\<close>

definition has_status :: "row \<Rightarrow> bool" where
  "has_status row = (case row_status row of Inl _ \<Rightarrow> False | Inr _ \<Rightarrow> True)"

definition is_archived :: "row \<Rightarrow> bool" where
  "is_archived row \<longleftrightarrow> row_status row = Inr (str ''archive'')"

definition not_archived :: "row \<Rightarrow> bool" where
  "not_archived row \<longleftrightarrow> \<not> is_archived row"

text \<open>The data rows of a file's text, and the error its reader ends with, if any.\<close>

definition data_rows :: "pystr \<Rightarrow> row list" where
  "data_rows content = fst (DictReader (splitlines (strip_bom content)))"

definition reader_error :: "pystr \<Rightarrow> py_exception option" where
  "reader_error content = snd (DictReader (splitlines (strip_bom content)))"

text \<open>
  The rows of an input path that the loop body handles to its end: none when the file
  cannot be read, otherwise the data rows before the first one without a status.
\<close>

definition file_rows :: "env \<Rightarrow> path \<Rightarrow> row list" where
  "file_rows w p =
     (case read_file w p of
        Inl x \<Rightarrow> []
      | Inr content \<Rightarrow> takeWhile has_status (data_rows content))"

definition file_items :: "env \<Rightarrow> path \<Rightarrow> bookmark_item list" where
  "file_items w p = map make_item (filter not_archived (file_rows w p))"

definition file_skips :: "env \<Rightarrow> path \<Rightarrow> row list" where
  "file_skips w p = filter is_archived (file_rows w p)"

text \<open>The exception the \<open>try\<close> block of an input path ends with, if any.\<close>

definition file_error :: "env \<Rightarrow> path \<Rightarrow> py_exception option" where
  "file_error w p =
     (case read_file w p of
        Inl x \<Rightarrow> Some x
      | Inr content \<Rightarrow>
          if list_all has_status (data_rows content) then reader_error content
          else Some AttributeError)"

definition file_echo :: "env \<Rightarrow> path \<Rightarrow> message list" where
  "file_echo w p =
     Processing_file p #
     (case file_error w p of
        None \<Rightarrow> []
      | Some x \<Rightarrow>
          if x = FileNotFoundError then [File_not_found p] else [Error_processing_file p x])"

text \<open>The data rows of the input paths that can be read, counted over the whole run.\<close>

definition total_data_rows :: "env \<Rightarrow> path list \<Rightarrow> int" where
  "total_data_rows w ps =
     (\<Sum>p\<leftarrow>ps. case read_file w p of
                Inl x \<Rightarrow> 0
              | Inr content \<Rightarrow> int (length (data_rows content)))"

text \<open>The document of a run that collects no entity.\<close>

definition empty_document :: pystr where
  "empty_document =
     str ''<!DOCTYPE NETSCAPE-Bookmark-file-1>'' @ [0x0A] @
     str ''<!-- This is an automatically generated file. -->'' @ [0x0A] @
     str ''<META HTTP-EQUIV=\"Content-Type\" CONTENT=\"text/html; charset=UTF-8\">'' @ [0x0A] @
     str ''<TITLE>Bookmarks</TITLE>'' @ [0x0A] @
     str ''<H1>Pocket Non-Archived Bookmarks</H1>'' @ [0x0A] @
     str ''<DL><p>'' @ [0x0A] @ [0x0A] @
     str ''</DL><p>''"


text \<open>
  The decoding of the five character references that escaping writes. This is what
  HTML unescaping (Python's \<open>html.unescape\<close>) does to a text in which every \<open>&\<close> begins
  one of these five references, as is the case for every escaped text; a general text may
  hold other references, which are left as they are here.
\<close>

fun html_unescape :: "pystr \<Rightarrow> pystr" where
  "html_unescape [] = []"
| "html_unescape (c # cs) =
     (if c = 0x26 \<and> prefix (str ''amp;'') cs then 0x26 # html_unescape (drop 4 cs)
      else if c = 0x26 \<and> prefix (str ''gt;'') cs then 0x3E # html_unescape (drop 3 cs)
      else if c = 0x26 \<and> prefix (str ''lt;'') cs then 0x3C # html_unescape (drop 3 cs)
      else if c = 0x26 \<and> prefix (str ''#39;'') cs then 0x27 # html_unescape (drop 4 cs)
      else if c = 0x26 \<and> prefix (str ''#34;'') cs then 0x22 # html_unescape (drop 4 cs)
      else c # html_unescape cs)"

text \<open>
  Reading a rendered entry back: the text of the anchor is what stands between the
  second \<open>>\<close> of the line and the next \<open><\<close>; the values of the attributes \<open>HREF\<close>,
  \<open>ADD_DATE\<close> and \<open>TAGS\<close> are what stands between the first and second, third and fourth,
  fifth and sixth double quote.
\<close>

definition text_after :: "nat \<Rightarrow> pystr \<Rightarrow> pystr" where
  "text_after c line = drop 1 (dropWhile (\<lambda>x. x \<noteq> c) line)"

definition text_upto :: "nat \<Rightarrow> pystr \<Rightarrow> pystr" where
  "text_upto c line = takeWhile (\<lambda>x. x \<noteq> c) line"

definition anchor_text :: "pystr \<Rightarrow> pystr" where
  "anchor_text line = text_upto 0x3C (text_after 0x3E (text_after 0x3E line))"

definition href_value :: "pystr \<Rightarrow> pystr" where
  "href_value line = text_upto 0x22 (text_after 0x22 line)"

definition add_date_value :: "pystr \<Rightarrow> pystr" where
  "add_date_value line = text_upto 0x22 (text_after 0x22 (text_after 0x22 (text_after 0x22 line)))"

definition tags_value :: "pystr \<Rightarrow> pystr" where
  "tags_value line =
     text_upto 0x22 (text_after 0x22 (text_after 0x22 (text_after 0x22 (text_after 0x22 (text_after 0x22 line)))))"

text \<open>
  The attribute text holds the four characters \<open>D="y\<close>. The function below runs over a
  text and remembers how much of \<open>D="y\<close> it has just read (0 to 3), or that it has read
  all of it somewhere (4). It serves to show that a rendered entry without the attribute
  holds these four characters nowhere, whatever the entity's texts are.
\<close>

definition scan_step :: "nat \<Rightarrow> nat \<Rightarrow> nat" where
  "scan_step q c =
     (if q = 4 then 4
      else if q = 3 \<and> c = 0x79 then 4
      else if q = 2 \<and> c = 0x22 then 3
      else if q = 1 \<and> c = 0x3D then 2
      else if c = 0x44 then 1
      else 0)"

fun scan :: "nat \<Rightarrow> pystr \<Rightarrow> nat" where
  "scan q [] = q"
| "scan q (c # cs) = scan (scan_step q c) cs"

section \<open>Example inputs\<close>

text \<open>
  The export of the specification's example (one unread and one archived bookmark), a
  file whose second data row is shorter than its header, a file whose only data row has
  its \<open>status\<close> and nothing else, a file whose texts hold the characters that escaping
  is about, and a world that holds the four: every other input path does not exist, the
  output path \<open>readonly.html\<close> cannot be opened for writing, and writing to
  \<open>full.html\<close> fails after it has been opened.
\<close>

definition pocket_csv :: pystr where
  "pocket_csv =
     str ''title,url,time_added,tags,status'' @ [0x0A] @
     str ''A,http://a.com,100,\"x,y\",unread'' @ [0x0A] @
     str ''B,http://b.com,200,,archive'' @ [0x0A]"

definition short_csv :: pystr where
  "short_csv =
     str ''url,status'' @ [0x0A] @
     str ''http://a.com,unread'' @ [0x0A] @
     str ''http://b.com'' @ [0x0A]"

definition bare_csv :: pystr where
  "bare_csv =
     str ''status,url,title'' @ [0x0A] @
     str ''unread'' @ [0x0A]"

definition script_csv :: pystr where
  "script_csv =
     str ''title,url,tags,status'' @ [0x0A] @
     str ''\"<script>&\"\"'' @ [0x27] @ str ''\",http://a.com/?x=1&y=2,\"a<b>\",unread'' @ [0x0A]"

definition world :: env where
  "world =
     \<lparr>read_file = (\<lambda>p. if p = str ''pocket.csv'' then Inr pocket_csv
                        else if p = str ''short.csv'' then Inr short_csv
                        else if p = str ''bare.csv'' then Inr bare_csv
                        else if p = str ''script.csv'' then Inr script_csv
                        else Inl FileNotFoundError),
      write_file = (\<lambda>p s. if p = str ''readonly.html'' then Open_raises OSError
                          else if p = str ''full.html'' then Write_raises OSError
                          else Write_ok)\<rparr>"

text \<open>A second world: the same export under another name, every output path writable.\<close>

definition other_world :: env where
  "other_world =
     \<lparr>read_file = (\<lambda>p. if p = str ''copy.csv'' then Inr pocket_csv else Inl OSError),
      write_file = (\<lambda>p s. Write_ok)\<rparr>"

section \<open>The loops, row by row and file by file\<close>

lemma for_rows_bookmarks:
  "bookmarks_data (fst (for_rows rows e st)) =
     bookmarks_data st @ map make_item (filter not_archived (takeWhile has_status rows))"
  by (induction rows arbitrary: st)
     (auto simp: has_status_def is_archived_def not_archived_def split: sum.splits)

lemma for_rows_processed:
  "processed_count (fst (for_rows rows e st)) =
     processed_count st + int (length (filter not_archived (takeWhile has_status rows)))"
  by (induction rows arbitrary: st)
     (auto simp: has_status_def is_archived_def not_archived_def split: sum.splits)

lemma for_rows_skipped:
  "skipped_archived_count (fst (for_rows rows e st)) =
     skipped_archived_count st + int (length (filter is_archived (takeWhile has_status rows)))"
  by (induction rows arbitrary: st)
     (auto simp: has_status_def is_archived_def not_archived_def split: sum.splits)

lemma for_rows_echo: "echo (fst (for_rows rows e st)) = echo st"
  by (induction rows arbitrary: st) (auto split: sum.splits)

lemma row_status_error: "row_status row = Inl x \<Longrightarrow> x = AttributeError"
  by (auto simp: row_status_def split: pyval.splits)

lemma for_rows_error:
  "snd (for_rows rows e st) = (if list_all has_status rows then e else Some AttributeError)"
  by (induction rows arbitrary: st)
     (auto simp: has_status_def split: sum.splits dest: row_status_error)

lemma try_file_bookmarks:
  "bookmarks_data (fst (try_file w p st)) = bookmarks_data st @ file_items w p"
  by (simp add: try_file_def file_items_def file_rows_def data_rows_def for_rows_bookmarks
      split: sum.splits prod.splits)

lemma try_file_processed:
  "processed_count (fst (try_file w p st)) = processed_count st + int (length (file_items w p))"
  by (simp add: try_file_def file_items_def file_rows_def data_rows_def for_rows_processed
      split: sum.splits prod.splits)

lemma try_file_skipped:
  "skipped_archived_count (fst (try_file w p st)) =
     skipped_archived_count st + int (length (file_skips w p))"
  by (simp add: try_file_def file_skips_def file_rows_def data_rows_def for_rows_skipped
      split: sum.splits prod.splits)

lemma try_file_echo: "echo (fst (try_file w p st)) = echo st"
  by (simp add: try_file_def for_rows_echo split: sum.splits prod.splits)

lemma try_file_error: "snd (try_file w p st) = file_error w p"
  by (simp add: try_file_def file_error_def data_rows_def reader_error_def for_rows_error
      split: sum.splits prod.splits)

lemma process_file_eq:
  "process_file w p st =
     (fst (try_file w p (st\<lparr>echo := echo st @ [Processing_file p]\<rparr>)))
       \<lparr>echo := echo st @ file_echo w p\<rparr>"
proof -
  let ?t = "try_file w p (st\<lparr>echo := echo st @ [Processing_file p]\<rparr>)"
  have e: "echo (fst ?t) = echo st @ [Processing_file p]"
    by (simp add: try_file_echo)
  have x: "snd ?t = file_error w p"
    by (rule try_file_error)
  obtain st' y where t: "?t = (st', y)"
    by (cases ?t)
  with e x have "echo st' = echo st @ [Processing_file p]" "y = file_error w p"
    by simp_all
  with t show ?thesis
    by (cases "file_error w p") (simp_all add: process_file_def file_echo_def)
qed

lemma process_file_bookmarks:
  "bookmarks_data (process_file w p st) = bookmarks_data st @ file_items w p"
  by (simp add: process_file_eq try_file_bookmarks)

lemma process_file_processed:
  "processed_count (process_file w p st) = processed_count st + int (length (file_items w p))"
  by (simp add: process_file_eq try_file_processed)

lemma process_file_skipped:
  "skipped_archived_count (process_file w p st) =
     skipped_archived_count st + int (length (file_skips w p))"
  by (simp add: process_file_eq try_file_skipped)

lemma process_file_echo: "echo (process_file w p st) = echo st @ file_echo w p"
  by (simp add: process_file_eq)

lemma for_files_bookmarks:
  "bookmarks_data (for_files w ps st) = bookmarks_data st @ concat (map (file_items w) ps)"
  by (induction ps arbitrary: st) (simp_all add: process_file_bookmarks)

lemma for_files_processed:
  "processed_count (for_files w ps st) =
     processed_count st + (\<Sum>p\<leftarrow>ps. int (length (file_items w p)))"
  by (induction ps arbitrary: st) (simp_all add: process_file_processed)

lemma for_files_skipped:
  "skipped_archived_count (for_files w ps st) =
     skipped_archived_count st + (\<Sum>p\<leftarrow>ps. int (length (file_skips w p)))"
  by (induction ps arbitrary: st) (simp_all add: process_file_skipped)

lemma for_files_echo:
  "echo (for_files w ps st) = echo st @ concat (map (file_echo w) ps)"
  by (induction ps arbitrary: st) (simp_all add: process_file_echo)

section \<open>The examples, evaluated\<close>

lemmas conv_eval =
  str_def isspace_def strip_def lower_cp_def lower_def is_linebreak_def splitlines_def
  field_limit_def delimiter_def quotechar_def parse_reset_def parse_save_field_def
  parse_add_char_def is_nl_def end_of_record_def start_field_def parse_process_char_def
  Reader_iternext_def reader_list.simps dict_zip_def DictReader_row_def DictReader_def
  dict_get_def init_state_def row_status_def make_item_def strip_bom_def try_file_def
  process_file_def py_str_def escape_cp_def escape_str_def escape_def template_head_def
  template_tail_def toread_attr_def render_bookmark_def render_def
  convert_data_to_html_bookmarks_def has_status_def is_archived_def not_archived_def
  data_rows_def reader_error_def file_rows_def file_items_def file_skips_def file_error_def
  file_echo_def pocket_csv_def short_csv_def bare_csv_def script_csv_def
  world_def Let_def

lemma pocket_state:
  "for_files world [str ''pocket.csv''] init_state =
     \<lparr>processed_count = 1, skipped_archived_count = 1,
      bookmarks_data =
        [\<lparr>url = PStr (str ''http://a.com''), title = PStr (str ''A''),
          add_date = PStr (str ''100''), tags = PStr (str ''x,y''), toread = True\<rparr>],
      echo = [Processing_file (str ''pocket.csv'')]\<rparr>"
  by (simp add: conv_eval)

lemma short_state:
  "for_files world [str ''short.csv''] init_state =
     \<lparr>processed_count = 1, skipped_archived_count = 0,
      bookmarks_data =
        [\<lparr>url = PStr (str ''http://a.com''), title = PStr [],
          add_date = PStr [], tags = PStr [], toread = True\<rparr>],
      echo = [Processing_file (str ''short.csv''),
              Error_processing_file (str ''short.csv'') AttributeError]\<rparr>"
  by (simp add: conv_eval)

lemma pocket_data_rows: "length (data_rows pocket_csv) = 2"
  by (simp add: conv_eval)

lemma short_data_rows: "length (data_rows short_csv) = 2"
  by (simp add: conv_eval)

lemma pocket_file_error: "file_error world (str ''pocket.csv'') = None"
  by (simp add: conv_eval)

lemma short_file_error: "file_error world (str ''short.csv'') = Some AttributeError"
  by (simp add: conv_eval)

section \<open>The counts\<close>

lemma file_rows_complete:
  "read_file w p = Inr content \<Longrightarrow> file_error w p = None \<Longrightarrow>
     file_rows w p = data_rows content"
  by (auto simp: file_error_def file_rows_def list_all_iff split: if_splits)

lemma file_counts:
  "int (length (file_items w p)) + int (length (file_skips w p)) = int (length (file_rows w p))"
  unfolding file_items_def file_skips_def not_archived_def length_map
  using sum_length_filter_compl [of is_archived "file_rows w p"]
  by simp

lemma for_files_processed_length:
  "processed_count (for_files w ps st) - int (length (bookmarks_data (for_files w ps st))) =
     processed_count st - int (length (bookmarks_data st))"
  by (induction ps arbitrary: st)
     (simp_all add: process_file_processed process_file_bookmarks file_items_def)

lemma file_rows_unreadable: "read_file w p = Inl x \<Longrightarrow> file_rows w p = []"
  by (simp add: file_rows_def)

text \<open>
  C1, as the code has it. The claim holds for the runs whose output is written and in
  which no input file that can be read raises while its rows are handled: then the two
  numbers returned add up to the number of data rows of the readable files, and the
  first of them is the number of entities collected. (When writing fails the function
  returns 0 for the processed count, so the sum falls short; see the counterexample.)
\<close>

theorem counts_add_up_when_written:
  assumes "write_file w out (render (bookmarks_data (for_files w ps init_state))) = Write_ok"
    and "\<forall>p\<in>set ps. \<forall>content. read_file w p = Inr content \<longrightarrow> file_error w p = None"
  shows "fst (returned (convert_data_to_html_bookmarks w ps out)) +
           snd (returned (convert_data_to_html_bookmarks w ps out)) = total_data_rows w ps
         \<and> fst (returned (convert_data_to_html_bookmarks w ps out)) =
             int (length (bookmarks_data (for_files w ps init_state)))"
proof -
  let ?st = "for_files w ps init_state"
  have r: "returned (convert_data_to_html_bookmarks w ps out) =
             (processed_count ?st, skipped_archived_count ?st)"
    using assms(1) by (simp add: convert_data_to_html_bookmarks_def Let_def)
  have each: "int (length (file_rows w p)) =
                (case read_file w p of Inl x \<Rightarrow> 0 | Inr content \<Rightarrow> int (length (data_rows content)))"
    if "p \<in> set ps" for p
  proof (cases "read_file w p")
    case (Inl x)
    then show ?thesis by (simp add: file_rows_unreadable)
  next
    case (Inr content)
    with assms(2) that have "file_error w p = None" by blast
    with Inr show ?thesis by (simp add: file_rows_complete)
  qed
  have "processed_count ?st + skipped_archived_count ?st =
          (\<Sum>p\<leftarrow>ps. int (length (file_items w p)) + int (length (file_skips w p)))"
    by (simp add: for_files_processed for_files_skipped init_state_def sum_list_addf)
  also have "\<dots> = (\<Sum>p\<leftarrow>ps. int (length (file_rows w p)))"
    by (simp add: file_counts)
  also have "\<dots> = total_data_rows w ps"
    unfolding total_data_rows_def
    by (rule arg_cong [where f = sum_list], rule map_cong [OF refl]) (rule each)
  finally have sum: "processed_count ?st + skipped_archived_count ?st = total_data_rows w ps" .
  have len: "processed_count ?st = int (length (bookmarks_data ?st))"
    using for_files_processed_length [of w ps init_state] by (simp add: init_state_def)
  from r sum len show ?thesis by simp
qed

theorem counts_add_up_when_written_witness:
  "fst (returned (convert_data_to_html_bookmarks world [str ''pocket.csv'', str ''gone.csv'']
                   (str ''out.html''))) +
     snd (returned (convert_data_to_html_bookmarks world [str ''pocket.csv'', str ''gone.csv'']
                   (str ''out.html''))) = 2
   \<and> total_data_rows world [str ''pocket.csv'', str ''gone.csv''] = 2"
proof -
  let ?ps = "[str ''pocket.csv'', str ''gone.csv'']"
  have a: "write_file world (str ''out.html'')
             (render (bookmarks_data (for_files world ?ps init_state))) = Write_ok"
    by (simp add: world_def str_def)
  have b: "\<forall>p\<in>set ?ps. \<forall>content. read_file world p = Inr content \<longrightarrow> file_error world p = None"
    using pocket_file_error by (simp add: world_def str_def)
  have c: "total_data_rows world ?ps = 2"
    using pocket_data_rows by (simp add: total_data_rows_def world_def str_def)
  from counts_add_up_when_written [OF a b] c show ?thesis by simp
qed

theorem counts_fall_short_when_write_fails:
  "fst (returned (convert_data_to_html_bookmarks world [str ''pocket.csv'']
                   (str ''readonly.html''))) +
     snd (returned (convert_data_to_html_bookmarks world [str ''pocket.csv'']
                   (str ''readonly.html''))) = 1
   \<and> total_data_rows world [str ''pocket.csv''] = 2"
proof -
  have "returned (convert_data_to_html_bookmarks world [str ''pocket.csv'']
                   (str ''readonly.html'')) = (0, 1)"
    unfolding convert_data_to_html_bookmarks_def pocket_state
    by (simp add: world_def str_def)
  moreover have "total_data_rows world [str ''pocket.csv''] = 2"
    using pocket_data_rows by (simp add: total_data_rows_def world_def str_def)
  ultimately show ?thesis by simp
qed

section \<open>When the output cannot be written\<close>

text \<open>
  C6, as the code has it. When the output cannot be written, because \<open>open\<close> raises or
  because \<open>write\<close> or the closing of the file raises, the error is printed after the lines
  of the extraction, and the pair returned is 0 together with the skipped-archived count
  of the extraction: the processed count of the extraction is not returned.
\<close>

theorem write_failure_outcome:
  assumes "write_file w out (render (bookmarks_data (for_files w ps init_state))) = Open_raises x
           \<or> write_file w out (render (bookmarks_data (for_files w ps init_state))) =
               Write_raises x"
  shows "returned (convert_data_to_html_bookmarks w ps out) =
           (0, skipped_archived_count (for_files w ps init_state))
         \<and> skipped_archived_count (for_files w ps init_state) =
             (\<Sum>p\<leftarrow>ps. int (length (file_skips w p)))
         \<and> console (convert_data_to_html_bookmarks w ps out) =
             echo (for_files w ps init_state) @ [Error_writing out x]"
  using assms
  by (auto simp: convert_data_to_html_bookmarks_def Let_def for_files_skipped init_state_def)

theorem write_failure_outcome_witness:
  "returned (convert_data_to_html_bookmarks world [str ''pocket.csv''] (str ''readonly.html''))
     = (0, 1)
   \<and> console (convert_data_to_html_bookmarks world [str ''pocket.csv''] (str ''readonly.html''))
     = [Processing_file (str ''pocket.csv''), Error_writing (str ''readonly.html'') OSError]
   \<and> returned (convert_data_to_html_bookmarks world [str ''pocket.csv''] (str ''full.html''))
     = (0, 1)
   \<and> console (convert_data_to_html_bookmarks world [str ''pocket.csv''] (str ''full.html''))
     = [Processing_file (str ''pocket.csv''), Error_writing (str ''full.html'') OSError]"
proof -
  let ?html = "render (bookmarks_data (for_files world [str ''pocket.csv''] init_state))"
  have a: "write_file world (str ''readonly.html'') ?html = Open_raises OSError
           \<or> write_file world (str ''readonly.html'') ?html = Write_raises OSError"
    by (simp add: world_def)
  have b: "write_file world (str ''full.html'') ?html = Open_raises OSError
           \<or> write_file world (str ''full.html'') ?html = Write_raises OSError"
    by (simp add: world_def str_def)
  show ?thesis
    using write_failure_outcome [OF a] write_failure_outcome [OF b]
    unfolding pocket_state by simp
qed

theorem processed_count_not_reported_on_write_failure:
  "processed_count (for_files world [str ''pocket.csv''] init_state) = 1
   \<and> fst (returned (convert_data_to_html_bookmarks world [str ''pocket.csv'']
                      (str ''readonly.html''))) = 0"
  unfolding convert_data_to_html_bookmarks_def pocket_state
  by (simp add: world_def)

section \<open>Input files that cannot be read\<close>

lemma file_items_unreadable: "read_file w p = Inl x \<Longrightarrow> file_items w p = []"
  by (simp add: file_items_def file_rows_def)

lemma file_skips_unreadable: "read_file w p = Inl x \<Longrightarrow> file_skips w p = []"
  by (simp add: file_skips_def file_rows_def)

lemma file_echo_unreadable:
  "read_file w p = Inl x \<Longrightarrow>
     file_echo w p =
       [Processing_file p,
        if x = FileNotFoundError then File_not_found p else Error_processing_file p x]"
  by (simp add: file_echo_def file_error_def)

lemma convert_eq:
  assumes "bookmarks_data st = bookmarks_data st'"
    and "processed_count st = processed_count st'"
    and "skipped_archived_count st = skipped_archived_count st'"
    and "st = for_files w ps init_state" and "st' = for_files w ps' init_state"
  shows "returned (convert_data_to_html_bookmarks w ps out) =
           returned (convert_data_to_html_bookmarks w ps' out)
         \<and> written (convert_data_to_html_bookmarks w ps out) =
             written (convert_data_to_html_bookmarks w ps' out)"
  using assms
  by (simp add: convert_data_to_html_bookmarks_def Let_def split: write_result.splits)

text \<open>
  C8. An input path that cannot be opened or read gets its error line (the one for a
  missing file, or the general one with the exception), adds no entity and leaves both
  counters as they are; the run goes on, and what it returns and writes is what the run
  without that path returns and writes.
\<close>

theorem unreadable_file_contributes_nothing:
  assumes "read_file w p = Inl x"
  shows "bookmarks_data (process_file w p st) = bookmarks_data st
         \<and> processed_count (process_file w p st) = processed_count st
         \<and> skipped_archived_count (process_file w p st) = skipped_archived_count st
         \<and> echo (process_file w p st) =
             echo st @ [Processing_file p,
                        if x = FileNotFoundError then File_not_found p
                        else Error_processing_file p x]
         \<and> returned (convert_data_to_html_bookmarks w (ps1 @ p # ps2) out) =
             returned (convert_data_to_html_bookmarks w (ps1 @ ps2) out)
         \<and> written (convert_data_to_html_bookmarks w (ps1 @ p # ps2) out) =
             written (convert_data_to_html_bookmarks w (ps1 @ ps2) out)"
proof -
  note un = file_items_unreadable [OF assms] file_skips_unreadable [OF assms]
  have one: "bookmarks_data (process_file w p st) = bookmarks_data st"
    "processed_count (process_file w p st) = processed_count st"
    "skipped_archived_count (process_file w p st) = skipped_archived_count st"
    by (simp_all add: process_file_bookmarks process_file_processed process_file_skipped un)
  have ec: "echo (process_file w p st) =
              echo st @ [Processing_file p,
                         if x = FileNotFoundError then File_not_found p
                         else Error_processing_file p x]"
    by (simp add: process_file_echo file_echo_unreadable [OF assms])
  have run: "returned (convert_data_to_html_bookmarks w (ps1 @ p # ps2) out) =
               returned (convert_data_to_html_bookmarks w (ps1 @ ps2) out)
             \<and> written (convert_data_to_html_bookmarks w (ps1 @ p # ps2) out) =
                 written (convert_data_to_html_bookmarks w (ps1 @ ps2) out)"
    by (rule convert_eq [OF _ _ _ refl refl])
       (simp_all add: for_files_bookmarks for_files_processed for_files_skipped un)
  from one ec run show ?thesis by simp
qed

theorem unreadable_file_contributes_nothing_witness:
  "echo (process_file world (str ''gone.csv'') init_state) =
     [Processing_file (str ''gone.csv''), File_not_found (str ''gone.csv'')]
   \<and> returned (convert_data_to_html_bookmarks world [str ''gone.csv'', str ''pocket.csv'']
                 (str ''out.html'')) = (1, 1)"
proof -
  have a: "read_file world (str ''gone.csv'') = Inl FileNotFoundError"
    by (simp add: world_def str_def)
  have b: "returned (convert_data_to_html_bookmarks world [str ''pocket.csv''] (str ''out.html''))
             = (1, 1)"
    unfolding convert_data_to_html_bookmarks_def pocket_state
    by (simp add: world_def str_def)
  from unreadable_file_contributes_nothing
         [OF a, of init_state "[]" "[str ''pocket.csv'']" "str ''out.html''"] b
  show ?thesis by (simp add: init_state_def)
qed

section \<open>Input files that fail while their rows are handled\<close>

lemma parse_add_char_error: "parse_add_char r c = Inl x \<Longrightarrow> x = csv_Error"
  by (simp add: parse_add_char_def split: if_splits)

lemma start_field_error: "start_field r c = Inl x \<Longrightarrow> x = csv_Error"
  by (auto simp: start_field_def split: option.splits if_splits sum.splits
      dest: parse_add_char_error)

lemma parse_process_char_error: "parse_process_char r c = Inl x \<Longrightarrow> x = csv_Error"
  by (auto simp: parse_process_char_def
      split: ParserState.splits option.splits if_splits sum.splits
      dest: parse_add_char_error start_field_error)

lemma process_line_error: "process_line r l = Inl x \<Longrightarrow> x = csv_Error"
  by (induction l arbitrary: r) (auto split: sum.splits dest: parse_process_char_error)

lemma iternext_loop_error: "iternext_loop r ls = Some (Inl x) \<Longrightarrow> x = csv_Error"
  by (induction ls arbitrary: r)
     (auto split: sum.splits if_splits dest: parse_process_char_error process_line_error)

lemma reader_list_error: "snd (reader_list ls) = Some x \<Longrightarrow> x = csv_Error"
proof (induction ls rule: reader_list.induct)
  case (1 ls)
  show ?case
  proof (cases "Reader_iternext ls")
    case None
    with "1.prems" show ?thesis by (simp add: reader_list.simps [of ls])
  next
    case (Some res)
    show ?thesis
    proof (cases res)
      case (Inl y)
      with Some "1.prems" show ?thesis
        by (auto simp: reader_list.simps [of ls] Reader_iternext_def dest: iternext_loop_error)
    next
      case (Inr b)
      obtain fs rest where b: "b = (fs, rest)" by (cases b)
      with Some Inr "1.prems" have "snd (reader_list rest) = Some x"
        by (simp add: reader_list.simps [of ls] split: prod.splits)
      with "1.IH" [OF Some Inr b [symmetric]] show ?thesis .
    qed
  qed
qed

lemma reader_error_csv: "reader_error content = Some x \<Longrightarrow> x = csv_Error"
  by (auto simp: reader_error_def DictReader_def split: prod.splits list.splits
      dest: reader_list_error [OF trans [OF arg_cong [where f = snd]], OF _ snd_conv])

lemma file_error_readable:
  "read_file w p = Inr content \<Longrightarrow> file_error w p = Some x \<Longrightarrow> x \<noteq> FileNotFoundError"
  by (auto simp: file_error_def split: if_splits dest: reader_error_csv)

text \<open>
  C5, as the code has it. A file that is read but raises while its rows are handled (a
  row shorter than the header leaves \<open>status\<close> bound to \<open>None\<close>, or the reader itself
  raises) gets its error line and the run goes on with the next path. Nothing is rolled
  back: the rows handled before the failing one keep their place in the list of
  entities, between those of the earlier and of the later files, and their increments of
  the two counters stay.
\<close>

theorem failing_file_keeps_earlier_rows:
  assumes "read_file w p = Inr content" and "file_error w p = Some x"
  shows "echo (process_file w p st) =
           echo st @ [Processing_file p, Error_processing_file p x]
         \<and> bookmarks_data (for_files w (ps1 @ p # ps2) init_state) =
             concat (map (file_items w) ps1) @
             map make_item (filter not_archived (takeWhile has_status (data_rows content))) @
             concat (map (file_items w) ps2)
         \<and> processed_count (process_file w p st) =
             processed_count st +
             int (length (filter not_archived (takeWhile has_status (data_rows content))))
         \<and> skipped_archived_count (process_file w p st) =
             skipped_archived_count st +
             int (length (filter is_archived (takeWhile has_status (data_rows content))))"
proof -
  have rows: "file_rows w p = takeWhile has_status (data_rows content)"
    using assms(1) by (simp add: file_rows_def)
  have "x \<noteq> FileNotFoundError"
    using assms by (rule file_error_readable)
  then have "echo (process_file w p st) =
               echo st @ [Processing_file p, Error_processing_file p x]"
    using assms(2) by (simp add: process_file_echo file_echo_def)
  moreover have "bookmarks_data (for_files w (ps1 @ p # ps2) init_state) =
      concat (map (file_items w) ps1) @
      map make_item (filter not_archived (takeWhile has_status (data_rows content))) @
      concat (map (file_items w) ps2)"
    by (simp add: for_files_bookmarks init_state_def file_items_def rows)
  moreover have "processed_count (process_file w p st) =
      processed_count st +
      int (length (filter not_archived (takeWhile has_status (data_rows content))))"
    by (simp add: process_file_processed file_items_def rows)
  moreover have "skipped_archived_count (process_file w p st) =
      skipped_archived_count st +
      int (length (filter is_archived (takeWhile has_status (data_rows content))))"
    by (simp add: process_file_skipped file_skips_def rows)
  ultimately show ?thesis by simp
qed

theorem failing_file_keeps_earlier_rows_witness:
  "echo (process_file world (str ''short.csv'') init_state) =
     [Processing_file (str ''short.csv''),
      Error_processing_file (str ''short.csv'') AttributeError]
   \<and> processed_count (process_file world (str ''short.csv'') init_state) = 1"
proof -
  have a: "read_file world (str ''short.csv'') = Inr short_csv"
    by (simp add: world_def str_def)
  have n: "length (filter not_archived (takeWhile has_status (data_rows short_csv))) = 1"
    by (simp add: conv_eval)
  show ?thesis
    using failing_file_keeps_earlier_rows [OF a short_file_error, of init_state] n
    by (simp add: init_state_def)
qed

theorem failing_file_is_not_all_or_nothing:
  "console (convert_data_to_html_bookmarks world [str ''short.csv''] (str ''out.html'')) =
     [Processing_file (str ''short.csv''),
      Error_processing_file (str ''short.csv'') AttributeError]
   \<and> returned (convert_data_to_html_bookmarks world [str ''short.csv''] (str ''out.html'')) =
     (1, 0)
   \<and> written (convert_data_to_html_bookmarks world [str ''short.csv''] (str ''out.html'')) =
     Complete (render [\<lparr>url = PStr (str ''http://a.com''), title = PStr [], add_date = PStr [],
                    tags = PStr [], toread = True\<rparr>])"
  unfolding convert_data_to_html_bookmarks_def short_state
  by (simp add: world_def str_def)

section \<open>Rendering and writing happen in every run\<close>

lemma render_Nil: "render [] = empty_document"
  by (simp add: render_def template_head_def template_tail_def empty_document_def)

text \<open>
  C10. Whatever happened to the input files, the template is rendered on the entities
  collected and the text is handed to the write: when the write succeeds, the file holds
  that text. When every input path either cannot be read or yields no entity, the text
  is the fixed head (doctype, comment, meta tag, title, heading, opening list tag)
  followed by the closing list tag, with no entry.
\<close>

theorem empty_run_still_writes:
  "(write_file w out (render (bookmarks_data (for_files w ps init_state))) = Write_ok \<longrightarrow>
      written (convert_data_to_html_bookmarks w ps out) =
        Complete (render (bookmarks_data (for_files w ps init_state))))
   \<and> ((\<forall>p\<in>set ps. (\<exists>x. read_file w p = Inl x) \<or> file_items w p = []) \<longrightarrow>
      render (bookmarks_data (for_files w ps init_state)) = empty_document)"
proof -
  have "render (bookmarks_data (for_files w ps init_state)) = empty_document"
    if a: "\<forall>p\<in>set ps. (\<exists>x. read_file w p = Inl x) \<or> file_items w p = []"
  proof -
    have "file_items w p = []" if "p \<in> set ps" for p
      using a that by (auto dest: file_items_unreadable)
    then have "concat (map (file_items w) ps) = []"
      by simp
    then have "bookmarks_data (for_files w ps init_state) = []"
      by (simp add: for_files_bookmarks init_state_def)
    then show ?thesis
      by (simp only: render_Nil)
  qed
  then show ?thesis
    by (simp add: convert_data_to_html_bookmarks_def Let_def)
qed

theorem empty_run_still_writes_witness:
  "written (convert_data_to_html_bookmarks world [str ''gone.csv'', str ''lost.csv'']
             (str ''out.html'')) = Complete empty_document"
proof -
  let ?ps = "[str ''gone.csv'', str ''lost.csv'']"
  have a: "\<forall>p\<in>set ?ps. (\<exists>x. read_file world p = Inl x) \<or> file_items world p = []"
    by (simp add: world_def str_def)
  have b: "write_file world (str ''out.html'')
             (render (bookmarks_data (for_files world ?ps init_state))) = Write_ok"
    by (simp add: world_def str_def)
  from empty_run_still_writes [of world "str ''out.html''" ?ps] a b show ?thesis
    by simp
qed

section \<open>The result depends on the contents of the input files only\<close>

lemma file_items_cong: "read_file w p = read_file w' p' \<Longrightarrow> file_items w p = file_items w' p'"
  by (simp add: file_items_def file_rows_def)

lemma file_skips_cong: "read_file w p = read_file w' p' \<Longrightarrow> file_skips w p = file_skips w' p'"
  by (simp add: file_skips_def file_rows_def)

lemma map_transfer:
  "map f xs = map f' ys \<Longrightarrow> (\<And>x y. f x = f' y \<Longrightarrow> g x = g' y) \<Longrightarrow> map g xs = map g' ys"
proof (induction xs arbitrary: ys)
  case Nil
  then show ?case by simp
next
  case (Cons x xs)
  then obtain y ys' where "ys = y # ys'" "f x = f' y" "map f xs = map f' ys'"
    by (cases ys) auto
  with Cons show ?case by simp
qed

text \<open>
  C9. The function is a function of its inputs; beyond that, the entities, the rendered
  document and the two counters are determined by the sequence of what reading the input
  paths gives, in order: neither the names of the paths, nor the output path, nor anything
  else of the world enters them. Two runs that read the same contents in the same order
  and both manage to write leave the same text in the output file and return the same
  pair.
\<close>

theorem conversion_depends_on_contents_only:
  assumes "map (read_file w) ps = map (read_file w') ps'"
  shows "render (bookmarks_data (for_files w ps init_state)) =
           render (bookmarks_data (for_files w' ps' init_state))
         \<and> processed_count (for_files w ps init_state) =
             processed_count (for_files w' ps' init_state)
         \<and> skipped_archived_count (for_files w ps init_state) =
             skipped_archived_count (for_files w' ps' init_state)
         \<and> (write_file w out (render (bookmarks_data (for_files w ps init_state))) = Write_ok \<and>
            write_file w' out' (render (bookmarks_data (for_files w' ps' init_state))) = Write_ok
            \<longrightarrow> written (convert_data_to_html_bookmarks w ps out) =
                  written (convert_data_to_html_bookmarks w' ps' out') \<and>
                returned (convert_data_to_html_bookmarks w ps out) =
                  returned (convert_data_to_html_bookmarks w' ps' out'))"
proof -
  have i: "map (file_items w) ps = map (file_items w') ps'"
    using assms by (rule map_transfer) (rule file_items_cong)
  have k: "map (file_skips w) ps = map (file_skips w') ps'"
    using assms by (rule map_transfer) (rule file_skips_cong)
  have il: "map (\<lambda>p. int (length (file_items w p))) ps =
            map (\<lambda>p. int (length (file_items w' p))) ps'"
    using arg_cong [OF i, of "map (\<lambda>xs. int (length xs))"] by (simp add: comp_def)
  have kl: "map (\<lambda>p. int (length (file_skips w p))) ps =
            map (\<lambda>p. int (length (file_skips w' p))) ps'"
    using arg_cong [OF k, of "map (\<lambda>xs. int (length xs))"] by (simp add: comp_def)
  have b: "bookmarks_data (for_files w ps init_state) =
           bookmarks_data (for_files w' ps' init_state)"
    by (simp add: for_files_bookmarks i)
  have c: "processed_count (for_files w ps init_state) =
           processed_count (for_files w' ps' init_state)"
    by (simp add: for_files_processed il)
  have d: "skipped_archived_count (for_files w ps init_state) =
           skipped_archived_count (for_files w' ps' init_state)"
    by (simp add: for_files_skipped kl)
  from b c d show ?thesis
    by (simp add: convert_data_to_html_bookmarks_def Let_def)
qed

theorem conversion_depends_on_contents_only_witness:
  "written (convert_data_to_html_bookmarks world [str ''pocket.csv''] (str ''out.html'')) =
     written (convert_data_to_html_bookmarks other_world [str ''copy.csv''] (str ''b.html''))
   \<and> returned (convert_data_to_html_bookmarks world [str ''pocket.csv''] (str ''out.html'')) =
     returned (convert_data_to_html_bookmarks other_world [str ''copy.csv''] (str ''b.html''))"
proof -
  have a: "map (read_file world) [str ''pocket.csv''] =
           map (read_file other_world) [str ''copy.csv'']"
    by (simp add: world_def other_world_def str_def)
  have b: "write_file world (str ''out.html'')
             (render (bookmarks_data (for_files world [str ''pocket.csv''] init_state))) = Write_ok"
    by (simp add: world_def str_def)
  have c: "write_file other_world (str ''b.html'')
             (render (bookmarks_data (for_files other_world [str ''copy.csv''] init_state)))
           = Write_ok"
    by (simp add: other_world_def)
  from conversion_depends_on_contents_only
         [OF a, of "str ''out.html''" "str ''b.html''"] b c
  show ?thesis by blast
qed

section \<open>Rows: the status test and the entity\<close>





lemma fold_bind_None:
  "k \<notin> fst ` set kvs \<Longrightarrow> d k = None \<Longrightarrow>
     fold (\<lambda>(k, v) d. d(k \<mapsto> PStr v)) kvs d k = None"
  by (induction kvs arbitrary: d) auto

lemma fold_restval_None:
  "k \<notin> set ks \<Longrightarrow> d k = None \<Longrightarrow> fold (\<lambda>k d. d(k \<mapsto> PNone)) ks d k = None"
  by (induction ks arbitrary: d) auto

lemma DictReader_row_None: "k \<notin> set fieldnames \<Longrightarrow> DictReader_row fieldnames r k = None"
proof -
  assume k: "k \<notin> set fieldnames"
  then have "k \<notin> fst ` set (zip fieldnames r)"
    by (auto dest: set_zip_leftD)
  then have "dict_zip fieldnames r k = None"
    by (simp add: dict_zip_def fold_bind_None)
  moreover have "k \<notin> set (drop (length r) fieldnames)"
    using k by (auto dest: in_set_dropD)
  ultimately show ?thesis
    by (simp add: DictReader_row_def fold_restval_None)
qed

lemma DictReader_rows_of_header:
  "DictReader_fieldnames ls = Some h \<Longrightarrow> row \<in> set (fst (DictReader ls)) \<Longrightarrow>
     \<exists>r. row = DictReader_row h r"
  by (auto simp: DictReader_fieldnames_def DictReader_def split: prod.splits list.splits)

lemma missing_column_default:
  assumes "read_file w p = Inr content"
    and "DictReader_fieldnames (splitlines (strip_bom content)) = Some h"
    and "k \<notin> set h" and "row \<in> set (file_rows w p)"
  shows "dict_get row k (PStr []) = PStr []"
proof -
  from assms(1,4) have "row \<in> set (data_rows content)"
    by (auto simp: file_rows_def dest: set_takeWhileD)
  with assms(2) obtain r where "row = DictReader_row h r"
    unfolding data_rows_def by (blast dest: DictReader_rows_of_header)
  with assms(3) show ?thesis
    by (simp add: dict_get_def DictReader_row_None)
qed

text \<open>
  C7 does not hold of the code. The entity takes \<open>row.get(key, '')\<close> for each of its four
  texts, and the empty text stands in for a key that the row's dictionary does not have,
  as for every column that the header does not name (lemma \<open>missing_column_default\<close>).
  But a row shorter than the header does not lack the keys of the columns it leaves out:
  \<open>DictReader\<close> binds them to \<open>None\<close>, the default does not apply, and the entity holds
  \<open>None\<close>, which the template writes as the text \<open>None\<close>. The file whose only data row
  is \<open>unread\<close> under the header \<open>status,url,title\<close> raises nothing and yields one entry
  with \<open>HREF="None"\<close> and the anchor text \<open>None\<close>; its \<open>add_date\<close> and \<open>tags\<close>, whose
  columns the header does not name, are empty.
\<close>

theorem short_row_entity_holds_None:
  "file_items world (str ''bare.csv'') =
     [\<lparr>url = PNone, title = PNone, add_date = PStr [], tags = PStr [], toread = True\<rparr>]
   \<and> file_error world (str ''bare.csv'') = None
   \<and> returned (convert_data_to_html_bookmarks world [str ''bare.csv''] (str ''out.html'')) =
     (1, 0)
   \<and> written (convert_data_to_html_bookmarks world [str ''bare.csv''] (str ''out.html'')) =
     Complete
       (template_head @
        str ''\<newline>    <DT><A HREF=\"None\" ADD_DATE=\"\" TAGS=\"\" TOREAD=\"yes\">None</A>\<newline>'' @
        template_tail)"
  by (simp add: conv_eval)

section \<open>Escaping\<close>

lemma escape_str_Cons: "escape_str (c # s) = escape_cp c @ escape_str s"
  by (simp add: escape_str_def)

lemma html_unescape_escape_cp: "html_unescape (escape_cp c @ cs) = c # html_unescape cs"
  by (simp add: escape_cp_def str_def)

lemma html_unescape_escape_str: "html_unescape (escape_str s) = s"
  by (induction s) (simp_all add: escape_str_Cons html_unescape_escape_cp escape_str_def)

lemma escape_cp_plain: "x \<in> set (escape_cp c) \<Longrightarrow> x \<noteq> 0x3C \<and> x \<noteq> 0x3E \<and> x \<noteq> 0x22 \<and> x \<noteq> 0x27"
  by (auto simp: escape_cp_def str_def split: if_splits)

lemma escape_str_plain:
  "x \<in> set (escape_str s) \<Longrightarrow> x \<noteq> 0x3C \<and> x \<noteq> 0x3E \<and> x \<noteq> 0x22 \<and> x \<noteq> 0x27"
  unfolding escape_str_def by (auto dest: escape_cp_plain)

lemma escape_plain:
  "x \<in> set (escape v) \<Longrightarrow> x \<noteq> 0x3C \<and> x \<noteq> 0x3E \<and> x \<noteq> 0x22 \<and> x \<noteq> 0x27"
  unfolding escape_def by (rule escape_str_plain)

lemma text_after_escape:
  "c = 0x3C \<or> c = 0x3E \<or> c = 0x22 \<or> c = 0x27 \<Longrightarrow>
     text_after c (escape v @ rest) = text_after c rest"
  unfolding text_after_def
  by (subst dropWhile_append2) (auto dest: escape_plain)

lemma text_upto_escape:
  "c = 0x3C \<or> c = 0x3E \<or> c = 0x22 \<or> c = 0x27 \<Longrightarrow>
     text_upto c (escape v @ c # rest) = escape v"
  unfolding text_upto_def
  by (subst takeWhile_append2) (auto dest: escape_plain)

lemma text_after_Cons: "text_after c (x # rest) = (if x = c then rest else text_after c rest)"
  by (simp add: text_after_def)

lemma anchor_text_render: "anchor_text (render_bookmark b) = escape (title b)"
  by (cases "toread b")
     (simp_all add: anchor_text_def render_bookmark_def toread_attr_def str_def
        text_after_Cons text_after_escape text_upto_escape)

lemma href_value_render: "href_value (render_bookmark b) = escape (url b)"
  by (simp add: href_value_def render_bookmark_def str_def
        text_after_Cons text_after_escape text_upto_escape)

lemma add_date_value_render: "add_date_value (render_bookmark b) = escape (add_date b)"
  by (simp add: add_date_value_def render_bookmark_def str_def
        text_after_Cons text_after_escape text_upto_escape)

lemma tags_value_render: "tags_value (render_bookmark b) = escape (tags b)"
  by (simp add: tags_value_def render_bookmark_def str_def
        text_after_Cons text_after_escape text_upto_escape)

lemma render_bookmark_escaped:
  "render_bookmark b =
     str ''\<newline>    <DT><A HREF=\"'' @ escape_str (py_str (url b)) @
     str ''\" ADD_DATE=\"'' @ escape_str (py_str (add_date b)) @
     str ''\" TAGS=\"'' @ escape_str (py_str (tags b)) @ str ''\"'' @
     (if toread b then str '' TOREAD=\"yes\"'' else []) @
     str ''>'' @ escape_str (py_str (title b)) @ str ''</A>\<newline>''"
  by (simp add: render_bookmark_def escape_def toread_attr_def str_def)

lemma escape_str_table:
  "escape_str s =
     concat (map (\<lambda>c. if c = 0x26 then str ''&amp;''
                       else if c = 0x3C then str ''&lt;''
                       else if c = 0x3E then str ''&gt;''
                       else if c = 0x22 then str ''&#34;''
                       else if c = 0x27 then str ''&#39;''
                       else [c]) s)"
  by (induction s) (simp_all add: escape_str_def escape_cp_def)

text \<open>
  C3. Escaping replaces each of \<open>&\<close>, \<open><\<close>, \<open>>\<close>, \<open>"\<close> and \<open>'\<close> by its character
  reference and leaves every other character, so that an escaped text holds none of
  \<open><\<close>, \<open>>\<close>, \<open>"\<close>, \<open>'\<close>, and unescaping an escaped text gives the text back. A
  rendered entry is the fixed markup with the escaped \<open>url\<close>, \<open>add_date\<close>, \<open>tags\<close> and
  \<open>title\<close> at their places: the value of \<open>HREF\<close>, the value of \<open>TAGS\<close> and the anchor
  text, read back from the entry, are the escaped \<open>url\<close>, \<open>tags\<close> and \<open>title\<close>, and
  unescaping them gives the entity's texts exactly. The document is the head, these
  entries and the tail, and it is what a run whose write succeeds leaves in the output
  file. The title of the specification, \<open><script>&"'\<close>, becomes
  \<open>&lt;script&gt;&amp;&#34;&#39;\<close>.
\<close>

theorem escaping_round_trip:
  "escape_str s =
     concat (map (\<lambda>c. if c = 0x26 then str ''&amp;''
                       else if c = 0x3C then str ''&lt;''
                       else if c = 0x3E then str ''&gt;''
                       else if c = 0x22 then str ''&#34;''
                       else if c = 0x27 then str ''&#39;''
                       else [c]) s)
   \<and> set (escape_str s) \<inter> {0x3C, 0x3E, 0x22, 0x27} = {}
   \<and> html_unescape (escape_str s) = s
   \<and> render_bookmark b =
       str ''\<newline>    <DT><A HREF=\"'' @ escape_str (py_str (url b)) @
       str ''\" ADD_DATE=\"'' @ escape_str (py_str (add_date b)) @
       str ''\" TAGS=\"'' @ escape_str (py_str (tags b)) @ str ''\"'' @
       (if toread b then str '' TOREAD=\"yes\"'' else []) @
       str ''>'' @ escape_str (py_str (title b)) @ str ''</A>\<newline>''
   \<and> href_value (render_bookmark b) = escape_str (py_str (url b))
   \<and> add_date_value (render_bookmark b) = escape_str (py_str (add_date b))
   \<and> tags_value (render_bookmark b) = escape_str (py_str (tags b))
   \<and> anchor_text (render_bookmark b) = escape_str (py_str (title b))
   \<and> html_unescape (href_value (render_bookmark b)) = py_str (url b)
   \<and> html_unescape (tags_value (render_bookmark b)) = py_str (tags b)
   \<and> html_unescape (anchor_text (render_bookmark b)) = py_str (title b)
   \<and> render bs = template_head @ concat (map render_bookmark bs) @ template_tail
   \<and> (write_file w out (render (bookmarks_data (for_files w ps init_state))) = Write_ok \<longrightarrow>
        written (convert_data_to_html_bookmarks w ps out) =
          Complete (template_head @
                    concat (map render_bookmark (bookmarks_data (for_files w ps init_state))) @
                    template_tail))
   \<and> escape_str (str ''<script>&\"'' @ [0x27]) = str ''&lt;script&gt;&amp;&#34;&#39;''"
proof -
  have "escape_str s =
     concat (map (\<lambda>c. if c = 0x26 then str ''&amp;''
                       else if c = 0x3C then str ''&lt;''
                       else if c = 0x3E then str ''&gt;''
                       else if c = 0x22 then str ''&#34;''
                       else if c = 0x27 then str ''&#39;''
                       else [c]) s)"
    by (rule escape_str_table)
  moreover have "set (escape_str s) \<inter> {0x3C, 0x3E, 0x22, 0x27} = {}"
    using escape_str_plain [of _ s] by blast
  moreover have "html_unescape (escape_str s) = s"
    by (rule html_unescape_escape_str)
  moreover have "render_bookmark b =
       str ''\<newline>    <DT><A HREF=\"'' @ escape_str (py_str (url b)) @
       str ''\" ADD_DATE=\"'' @ escape_str (py_str (add_date b)) @
       str ''\" TAGS=\"'' @ escape_str (py_str (tags b)) @ str ''\"'' @
       (if toread b then str '' TOREAD=\"yes\"'' else []) @
       str ''>'' @ escape_str (py_str (title b)) @ str ''</A>\<newline>''"
    by (rule render_bookmark_escaped)
  moreover have "href_value (render_bookmark b) = escape_str (py_str (url b))"
    by (simp only: href_value_render escape_def)
  moreover have "add_date_value (render_bookmark b) = escape_str (py_str (add_date b))"
    by (simp only: add_date_value_render escape_def)
  moreover have "tags_value (render_bookmark b) = escape_str (py_str (tags b))"
    by (simp only: tags_value_render escape_def)
  moreover have "anchor_text (render_bookmark b) = escape_str (py_str (title b))"
    by (simp only: anchor_text_render escape_def)
  moreover have "html_unescape (href_value (render_bookmark b)) = py_str (url b)"
    by (simp only: href_value_render escape_def html_unescape_escape_str)
  moreover have "html_unescape (tags_value (render_bookmark b)) = py_str (tags b)"
    by (simp only: tags_value_render escape_def html_unescape_escape_str)
  moreover have "html_unescape (anchor_text (render_bookmark b)) = py_str (title b)"
    by (simp only: anchor_text_render escape_def html_unescape_escape_str)
  moreover have "render bs = template_head @ concat (map render_bookmark bs) @ template_tail"
    by (rule render_def)
  moreover have "write_file w out (render (bookmarks_data (for_files w ps init_state))) = Write_ok
      \<longrightarrow> written (convert_data_to_html_bookmarks w ps out) =
          Complete (template_head @
                    concat (map render_bookmark (bookmarks_data (for_files w ps init_state))) @
                    template_tail)"
    by (simp add: convert_data_to_html_bookmarks_def Let_def render_def)
  moreover have "escape_str (str ''<script>&\"'' @ [0x27]) = str ''&lt;script&gt;&amp;&#34;&#39;''"
    by (simp add: escape_str_def escape_cp_def str_def)
  ultimately show ?thesis
    by (intro conjI)
qed

theorem escaping_round_trip_witness:
  "written (convert_data_to_html_bookmarks world [str ''script.csv''] (str ''out.html'')) =
     Complete
       (template_head @
        str ''\<newline>    <DT><A HREF=\"http://a.com/?x=1&amp;y=2\" ADD_DATE=\"\" TAGS=\"a&lt;b&gt;\" TOREAD=\"yes\">&lt;script&gt;&amp;&#34;&#39;</A>\<newline>'' @
        template_tail)
   \<and> html_unescape (str ''&lt;script&gt;&amp;&#34;&#39;'') = str ''<script>&\"'' @ [0x27]"
proof -
  let ?b = "\<lparr>url = PStr (str ''http://a.com/?x=1&y=2''),
             title = PStr (str ''<script>&\"'' @ [0x27]),
             add_date = PStr [], tags = PStr (str ''a<b>''), toread = True\<rparr>"
  have st: "bookmarks_data (for_files world [str ''script.csv''] init_state) = [?b]"
    by (simp add: conv_eval)
  have ok: "write_file world (str ''out.html'')
              (render (bookmarks_data (for_files world [str ''script.csv''] init_state))) =
            Write_ok"
    by (simp add: world_def str_def)
  note t = escaping_round_trip
             [of "str ''<script>&\"'' @ [0x27]" ?b "[]" world "str ''out.html''"
                 "[str ''script.csv'']"]
  from t ok have w: "written (convert_data_to_html_bookmarks world [str ''script.csv'']
                       (str ''out.html'')) =
      Complete (template_head @ render_bookmark ?b @ template_tail)"
    unfolding st by simp
  from t have u: "html_unescape (str ''&lt;script&gt;&amp;&#34;&#39;'') =
      str ''<script>&\"'' @ [0x27]"
    by metis
  from t have r: "render_bookmark ?b =
      str ''\<newline>    <DT><A HREF=\"http://a.com/?x=1&amp;y=2\" ADD_DATE=\"\" TAGS=\"a&lt;b&gt;\" TOREAD=\"yes\">&lt;script&gt;&amp;&#34;&#39;</A>\<newline>''"
    by (simp add: py_str_def escape_str_def escape_cp_def str_def)
  from w u show ?thesis
    unfolding r by simp
qed

section \<open>The to-read attribute\<close>

lemma scan_append: "scan q (xs @ ys) = scan (scan q xs) ys"
  by (induction xs arbitrary: q) simp_all

lemma scan_found: "scan 4 s = 4"
  by (induction s) (simp_all add: scan_step_def)

lemma scan_pattern: "scan q (str ''D=\"y'' @ ys) = 4"
  by (cases "q = 4") (simp_all add: str_def scan_step_def scan_found)

lemma sublist_scan:
  assumes "sublist (str ''D=\"y'') line"
  shows "scan 0 line = 4"
proof -
  from assms obtain ps ss where l: "line = ps @ str ''D=\"y'' @ ss"
    by (auto simp: sublist_def)
  have "scan 0 line = scan (scan 0 ps) (str ''D=\"y'' @ ss)"
    unfolding l by (rule scan_append)
  also have "\<dots> = 4"
    by (rule scan_pattern)
  finally show ?thesis .
qed

lemma toread_attr_pattern: "sublist (str ''D=\"y'') toread_attr"
proof -
  have "toread_attr = str '' TOREA'' @ str ''D=\"y'' @ str ''es\"''"
    by (simp add: toread_attr_def str_def)
  then show ?thesis
    unfolding sublist_def by blast
qed

lemma scan_plain: "q \<le> 2 \<Longrightarrow> 0x22 \<notin> set s \<Longrightarrow> scan q s \<le> 2"
  by (induction s arbitrary: q) (auto simp: scan_step_def)

lemma scan_escape: "q \<le> 2 \<Longrightarrow> scan q (escape v) \<le> 2"
  by (rule scan_plain) (auto dest: escape_plain)

lemma le_2_cases: "q \<le> (2::nat) \<Longrightarrow> q = 0 \<or> q = 1 \<or> q = 2"
  by arith

lemma scan_fixed_eval:
  "scan 0 (str ''\" ADD_DATE=\"'') = 0" "scan 1 (str ''\" ADD_DATE=\"'') = 0"
  "scan 2 (str ''\" ADD_DATE=\"'') = 0"
  "scan 0 (str ''\" TAGS=\"'') = 0" "scan 1 (str ''\" TAGS=\"'') = 0"
  "scan 2 (str ''\" TAGS=\"'') = 0"
  "scan 0 (str ''\">'') = 0" "scan 1 (str ''\">'') = 0" "scan 2 (str ''\">'') = 0"
  "scan 0 (str ''</A>\<newline>'') = 0" "scan 1 (str ''</A>\<newline>'') = 0"
  "scan 2 (str ''</A>\<newline>'') = 0"
  by (simp_all add: str_def scan_step_def)

lemma scan_fixed:
  assumes "q \<le> 2"
  shows "scan q (str ''\" ADD_DATE=\"'') = 0" and "scan q (str ''\" TAGS=\"'') = 0"
    and "scan q (str ''\">'') = 0" and "scan q (str ''</A>\<newline>'') = 0"
  using le_2_cases [OF assms] scan_fixed_eval by blast+

lemma render_bookmark_plain:
  assumes "\<not> toread b"
  shows "scan 0 (render_bookmark b) = 0"
proof -
  have r: "render_bookmark b =
      str ''\<newline>    <DT><A HREF=\"'' @ escape (url b) @ str ''\" ADD_DATE=\"'' @
      escape (add_date b) @ str ''\" TAGS=\"'' @ escape (tags b) @ str ''\">'' @
      escape (title b) @ str ''</A>\<newline>''"
    using assms by (simp add: render_bookmark_def str_def)
  have a: "scan 0 (str ''\<newline>    <DT><A HREF=\"'') = 0"
    by (simp add: str_def scan_step_def)
  show ?thesis
    unfolding r scan_append a
    by (simp add: scan_fixed scan_escape)
qed

lemma render_bookmark_toread: "sublist toread_attr (render_bookmark b) \<longleftrightarrow> toread b"
proof
  assume s: "sublist toread_attr (render_bookmark b)"
  show "toread b"
  proof (rule ccontr)
    assume "\<not> toread b"
    then have "scan 0 (render_bookmark b) = 0"
      by (rule render_bookmark_plain)
    moreover have "sublist (str ''D=\"y'') (render_bookmark b)"
      using toread_attr_pattern s by (rule sublist_order.order_trans)
    then have "scan 0 (render_bookmark b) = 4"
      by (rule sublist_scan)
    ultimately show False by simp
  qed
next
  assume "toread b"
  then have "render_bookmark b =
      ([0x0A] @ str ''    <DT><A HREF=\"'' @ escape (url b) @ str ''\" ADD_DATE=\"'' @
       escape (add_date b) @ str ''\" TAGS=\"'' @ escape (tags b) @ str ''\"'') @
      toread_attr @ (str ''>'' @ escape (title b) @ str ''</A>'' @ [0x0A])"
    by (simp add: render_bookmark_def)
  then show "sublist toread_attr (render_bookmark b)"
    unfolding sublist_def by blast
qed

lemma file_rows_data:
  "row \<in> set (file_rows w p) \<Longrightarrow>
     \<exists>content. read_file w p = Inr content \<and> row \<in> set (data_rows content)"
  by (cases "read_file w p") (auto simp: file_rows_def dest: set_takeWhileD)

text \<open>
  C4. Every entity collected has its \<open>toread\<close> set, and it is the entity of a data row
  of one of the input files that is not archived: the entities are, file after file and
  row after row, those of the handled rows that are not archived. A rendered entry holds
  the attribute \<open>TOREAD="yes"\<close> exactly when its entity's \<open>toread\<close> is set, so every entry
  of the document has it, and the document is the fixed head, these entries and the
  closing tag.
\<close>

theorem every_entry_is_to_read:
  "(\<forall>b\<in>set (bookmarks_data (for_files w ps init_state)).
      toread b \<and> sublist toread_attr (render_bookmark b) \<and>
      (\<exists>p\<in>set ps. \<exists>content. read_file w p = Inr content \<and>
         (\<exists>row\<in>set (data_rows content). \<not> is_archived row \<and> b = make_item row)))
   \<and> (sublist toread_attr (render_bookmark c) \<longleftrightarrow> toread c)
   \<and> bookmarks_data (for_files w ps init_state) =
       concat (map (\<lambda>p. map make_item (filter (\<lambda>row. \<not> is_archived row) (file_rows w p))) ps)
   \<and> render (bookmarks_data (for_files w ps init_state)) =
       template_head @
       concat (map render_bookmark (bookmarks_data (for_files w ps init_state))) @
       template_tail"
proof -
  have eq: "bookmarks_data (for_files w ps init_state) =
      concat (map (\<lambda>p. map make_item (filter (\<lambda>row. \<not> is_archived row) (file_rows w p))) ps)"
  proof -
    have "file_items w = (\<lambda>p. map make_item (filter (\<lambda>row. \<not> is_archived row) (file_rows w p)))"
      by (rule ext) (simp add: file_items_def not_archived_def [abs_def])
    then show ?thesis
      by (simp add: for_files_bookmarks init_state_def)
  qed
  have each: "toread b \<and> sublist toread_attr (render_bookmark b) \<and>
      (\<exists>p\<in>set ps. \<exists>content. read_file w p = Inr content \<and>
         (\<exists>row\<in>set (data_rows content). \<not> is_archived row \<and> b = make_item row))"
    if "b \<in> set (bookmarks_data (for_files w ps init_state))" for b
  proof -
    from that obtain p row where p: "p \<in> set ps" and row: "row \<in> set (file_rows w p)"
      and na: "\<not> is_archived row" and b: "b = make_item row"
      unfolding eq by auto
    from row obtain content where "read_file w p = Inr content" "row \<in> set (data_rows content)"
      by (blast dest: file_rows_data)
    moreover have "toread b"
      by (simp add: b make_item_def)
    moreover from this have "sublist toread_attr (render_bookmark b)"
      by (simp add: render_bookmark_toread)
    ultimately show ?thesis
      using p na b by blast
  qed
  from each eq show ?thesis
    by (simp add: render_bookmark_toread render_def)
qed

theorem every_entry_is_to_read_witness:
  "bookmarks_data (for_files world [str ''pocket.csv''] init_state) =
     [\<lparr>url = PStr (str ''http://a.com''), title = PStr (str ''A''),
       add_date = PStr (str ''100''), tags = PStr (str ''x,y''), toread = True\<rparr>]
   \<and> sublist toread_attr
       (render_bookmark
          \<lparr>url = PStr (str ''http://a.com''), title = PStr (str ''A''),
           add_date = PStr (str ''100''), tags = PStr (str ''x,y''), toread = True\<rparr>)
   \<and> written (convert_data_to_html_bookmarks world [str ''pocket.csv''] (str ''out.html'')) =
     Complete (template_head @
           str ''\<newline>    <DT><A HREF=\"http://a.com\" ADD_DATE=\"100\" TAGS=\"x,y\" TOREAD=\"yes\">A</A>\<newline>'' @
           template_tail)"
proof -
  let ?b = "\<lparr>url = PStr (str ''http://a.com''), title = PStr (str ''A''),
             add_date = PStr (str ''100''), tags = PStr (str ''x,y''), toread = True\<rparr>"
  have st: "bookmarks_data (for_files world [str ''pocket.csv''] init_state) = [?b]"
    by (simp only: pocket_state conv_state.simps)
  have "\<forall>b\<in>set (bookmarks_data (for_files world [str ''pocket.csv''] init_state)).
          sublist toread_attr (render_bookmark b)"
    using every_entry_is_to_read [of world "[str ''pocket.csv'']"] by blast
  then have a: "sublist toread_attr (render_bookmark ?b)"
    unfolding st by simp
  have r: "render_bookmark ?b =
      str ''\<newline>    <DT><A HREF=\"http://a.com\" ADD_DATE=\"100\" TAGS=\"x,y\" TOREAD=\"yes\">A</A>\<newline>''"
    by (simp add: render_bookmark_def toread_attr_def escape_def escape_str_def escape_cp_def
          py_str_def str_def)
  have w: "written (convert_data_to_html_bookmarks world [str ''pocket.csv''] (str ''out.html'')) =
      Complete (template_head @ render_bookmark ?b @ template_tail)"
    unfolding convert_data_to_html_bookmarks_def pocket_state
    by (simp add: world_def str_def render_def)
  from st a w show ?thesis
    unfolding r by simp
qed

end
